theory Spec2Isabelle
  imports Complex_Main "HOL-Library.Char_ord" "HOL-Library.List_Lexorder"
begin

section \<open>The sales dashboard script (app.py)\<close>

text \<open>
  The script loads a table of sales rows, reads three sidebar controls, filters the
  table, and derives KPIs, grouped sums and the Sankey lists from the filtered table.
  The embedding follows the script top to bottom. The pandas operations it calls are
  written out on lists: a DataFrame is the list of its rows, a Series (a column) is the
  list of its cells in row order.

  Amounts are exact numbers (\<open>rat\<close>, the value a decimal CSV literal denotes) and
  quantities are mathematical integers; binary floating-point rounding and the width of
  the machine integers pandas picks for a column are not part of the embedding. Labels
  are strings and every cell is present.
\<close>

subsection \<open>Rows, dates and Python errors\<close>

type_synonym timestamp = int
  \<comment> \<open>a pandas Timestamp: nanoseconds on the time line\<close>

type_synonym date = int
  \<comment> \<open>a \<open>datetime.date\<close> delivered by the date picker: a day number\<close>

record sale =
  Date :: timestamp
  Region :: string
  Product :: string
  Sales :: rat
  Quantity :: int

datatype py_error = IndexError | KeyError

text \<open>\<open>pd.to_datetime\<close> of a calendar date is the Timestamp of its midnight.\<close>

definition to_datetime :: "date \<Rightarrow> timestamp" where
  "to_datetime d = d * 86400000000000"

text \<open>
  \<open>date_filter[i]\<close> for a literal index \<open>i \<ge> 0\<close>: the date picker hands the script
  a tuple, and indexing past its end raises IndexError.
\<close>

definition getitem :: "'a list \<Rightarrow> nat \<Rightarrow> py_error + 'a" where
  "getitem xs i = (if i < length xs then Inr (xs ! i) else Inl IndexError)"

subsection \<open>Filtering (lines 40-44)\<close>

text \<open>
  \<open>Series.isin(values)\<close> and \<open>Series.between(left, right)\<close> (inclusive on both
  sides by default) give one boolean per row; \<open>&\<close> combines two boolean Series cell by
  cell; \<open>df[mask]\<close> keeps the rows whose mask cell is True.
\<close>

definition isin :: "'a list \<Rightarrow> 'a list \<Rightarrow> bool list" where
  "isin col vals = map (\<lambda>v. v \<in> set vals) col"

definition between :: "timestamp list \<Rightarrow> timestamp \<Rightarrow> timestamp \<Rightarrow> bool list" where
  "between col left right = map (\<lambda>d. left \<le> d \<and> d \<le> right) col"

definition series_and :: "bool list \<Rightarrow> bool list \<Rightarrow> bool list" where
  "series_and a b = map (\<lambda>(x, y). x \<and> y) (zip a b)"

definition getitem_mask :: "'a list \<Rightarrow> bool list \<Rightarrow> 'a list" where
  "getitem_mask df flags = map fst (filter snd (zip df flags))"

definition df_filtered ::
  "sale list \<Rightarrow> string list \<Rightarrow> string list \<Rightarrow> date list \<Rightarrow> py_error + sale list" where
  "df_filtered df region_filter product_filter date_filter =
     (case getitem date_filter 0 of
        Inl e \<Rightarrow> Inl e
      | Inr d0 \<Rightarrow>
          (case getitem date_filter 1 of
             Inl e \<Rightarrow> Inl e
           | Inr d1 \<Rightarrow>
               Inr (getitem_mask df
                     (series_and
                       (series_and (isin (map Region df) region_filter)
                                   (isin (map Product df) product_filter))
                       (between (map Date df) (to_datetime d0) (to_datetime d1))))))"

subsection \<open>KPIs (lines 49-51)\<close>

text \<open>\<open>Series.sum()\<close>: the cells are added up in row order, starting from 0.\<close>

definition series_sum :: "'a::monoid_add list \<Rightarrow> 'a" where
  "series_sum col = foldl (+) 0 col"

definition total_sales :: "sale list \<Rightarrow> rat" where
  "total_sales fv = series_sum (map Sales fv)"

definition total_quantity :: "sale list \<Rightarrow> int" where
  "total_quantity fv = series_sum (map Quantity fv)"

text \<open>
  The sums are numpy scalars, and numpy's true division does not raise on a zero
  divisor: it yields NaN for 0/0 and a signed infinity otherwise.
\<close>

datatype np_float = Fin rat | PosInf | NegInf | NaN

definition np_true_divide :: "rat \<Rightarrow> rat \<Rightarrow> np_float" where
  "np_true_divide a b =
     (if b = 0 then (if a = 0 then NaN else if 0 < a then PosInf else NegInf)
      else Fin (a / b))"

definition avg_order_value :: "sale list \<Rightarrow> np_float" where
  "avg_order_value fv =
     (if total_quantity fv > 0
      then np_true_divide (total_sales fv) (of_int (total_quantity fv))
      else Fin 0)"

subsection \<open>Grouped sums (lines 65, 71, 122)\<close>

text \<open>
  \<open>df.groupby(key)[col].sum()\<close>: one pass over the rows keeps a running sum per key
  met so far; the result is sorted by key, ascending (pandas' default \<open>sort=True\<close>).
  \<open>reset_index()\<close> turns the result into rows (key, sum).
\<close>

fun group_add :: "'k \<Rightarrow> rat \<Rightarrow> ('k \<times> rat) list \<Rightarrow> ('k \<times> rat) list" where
  "group_add k v [] = [(k, v)]"
| "group_add k v ((k', s) # gs) =
     (if k = k' then (k', s + v) # gs else (k', s) # group_add k v gs)"

definition group_sums :: "('r \<Rightarrow> 'k) \<Rightarrow> ('r \<Rightarrow> rat) \<Rightarrow> 'r list \<Rightarrow> ('k \<times> rat) list" where
  "group_sums key col rows = foldl (\<lambda>gs r. group_add (key r) (col r) gs) [] rows"

definition groupby_sum ::
  "('r \<Rightarrow> 'k::linorder) \<Rightarrow> ('r \<Rightarrow> rat) \<Rightarrow> 'r list \<Rightarrow> ('k \<times> rat) list" where
  "groupby_sum key col rows = sort_key fst (group_sums key col rows)"

definition sales_over_time :: "sale list \<Rightarrow> (timestamp \<times> rat) list" where
  "sales_over_time fv = groupby_sum Date Sales fv"

definition sales_by_region :: "sale list \<Rightarrow> (string \<times> rat) list" where
  "sales_by_region fv = groupby_sum Region Sales fv"

text \<open>\<open>Series.to_dict()\<close>: the entries are stored into a dict one after the other.\<close>

definition to_dict :: "('k \<times> 'v) list \<Rightarrow> ('k \<rightharpoonup> 'v)" where
  "to_dict kvs = foldl (\<lambda>m (k, v). m(k \<mapsto> v)) Map.empty kvs"

definition word_freq :: "sale list \<Rightarrow> (string \<rightharpoonup> rat)" where
  "word_freq fv = to_dict (groupby_sum Product Sales fv)"

subsection \<open>Sankey data (lines 88-99)\<close>

text \<open>
  \<open>Series.unique()\<close> returns the distinct cells in order of appearance: a scan that
  appends a cell to the result unless it has been seen.
\<close>

fun unique_scan :: "'a list \<Rightarrow> 'a list \<Rightarrow> 'a list" where
  "unique_scan seen [] = seen"
| "unique_scan seen (x # xs) =
     (if x \<in> set seen then unique_scan seen xs else unique_scan (seen @ [x]) xs)"

definition unique :: "'a list \<Rightarrow> 'a list" where
  "unique col = unique_scan [] col"

text \<open>
  The two dict comprehensions over \<open>enumerate\<close>: the pairs are stored in list order, a
  later pair with the same key replacing an earlier one.
\<close>

definition region_idx :: "string list \<Rightarrow> (string \<rightharpoonup> nat)" where
  "region_idx regions =
     foldl (\<lambda>m (i, region). m(region \<mapsto> i)) Map.empty (enumerate 0 regions)"

definition product_idx :: "string list \<Rightarrow> string list \<Rightarrow> (string \<rightharpoonup> nat)" where
  "product_idx regions products =
     foldl (\<lambda>m (i, prod). m(prod \<mapsto> length regions + i)) Map.empty (enumerate 0 products)"

text \<open>
  The loop over \<open>df_filtered.iterrows()\<close>. A subscript on a dict raises KeyError when
  the key is missing; the three lists grow by one cell per row.
\<close>

fun sankey_loop ::
  "(string \<rightharpoonup> nat) \<Rightarrow> (string \<rightharpoonup> nat) \<Rightarrow> sale list \<Rightarrow>
   nat list \<times> nat list \<times> rat list \<Rightarrow> py_error + nat list \<times> nat list \<times> rat list" where
  "sankey_loop ridx pidx [] acc = Inr acc"
| "sankey_loop ridx pidx (row # rows) (sources, targets, vals) =
     (case ridx (Region row) of
        None \<Rightarrow> Inl KeyError
      | Some s \<Rightarrow>
          (case pidx (Product row) of
             None \<Rightarrow> Inl KeyError
           | Some t \<Rightarrow>
               sankey_loop ridx pidx rows
                 (sources @ [s], targets @ [t], vals @ [Sales row])))"

record flow_graph =
  node_label :: "string list"
  link_source :: "nat list"
  link_target :: "nat list"
  link_value :: "rat list"

definition build_flow :: "sale list \<Rightarrow> py_error + flow_graph" where
  "build_flow fv =
     (let regions = unique (map Region fv);
          products = unique (map Product fv);
          labels = regions @ products
      in case sankey_loop (region_idx regions) (product_idx regions products) fv ([], [], []) of
           Inl e \<Rightarrow> Inl e
         | Inr (sources, targets, vals) \<Rightarrow>
             Inr \<lparr>node_label = labels, link_source = sources,
                  link_target = targets, link_value = vals\<rparr>)"

text \<open>The edges of the diagram: cell \<open>k\<close> of the three link lists, for each \<open>k\<close>.\<close>

definition edges :: "flow_graph \<Rightarrow> (nat \<times> nat \<times> rat) list" where
  "edges g = zip (link_source g) (zip (link_target g) (link_value g))"

subsection \<open>The whole script\<close>

record view_model =
  filtered :: "sale list"
  kpi_total_sales :: rat
  kpi_total_quantity :: int
  kpi_avg_order_value :: np_float
  time_series :: "(timestamp \<times> rat) list"
  region_totals :: "(string \<times> rat) list"
  sankey :: flow_graph
  frequencies :: "string \<rightharpoonup> rat"

definition app ::
  "sale list \<Rightarrow> string list \<Rightarrow> string list \<Rightarrow> date list \<Rightarrow> py_error + view_model" where
  "app df region_filter product_filter date_filter =
     (case df_filtered df region_filter product_filter date_filter of
        Inl e \<Rightarrow> Inl e
      | Inr fv \<Rightarrow>
          (case build_flow fv of
             Inl e \<Rightarrow> Inl e
           | Inr g \<Rightarrow>
               Inr \<lparr>filtered = fv,
                    kpi_total_sales = total_sales fv,
                    kpi_total_quantity = total_quantity fv,
                    kpi_avg_order_value = avg_order_value fv,
                    time_series = sales_over_time fv,
                    region_totals = sales_by_region fv,
                    sankey = g,
                    frequencies = word_freq fv\<rparr>))"

text \<open>
  The position of the first occurrence of a label in a list (the length of the list when
  the label does not occur): used to state in which order labels stand and which index
  a label has.
\<close>

definition first_index :: "'a list \<Rightarrow> 'a \<Rightarrow> nat" where
  "first_index xs a = length (takeWhile (\<lambda>y. y \<noteq> a) xs)"

text \<open>
  The sum of a column over the rows that carry a given key: what a grouped sum is
  compared with.
\<close>

definition group_total :: "('r \<Rightarrow> 'k) \<Rightarrow> ('r \<Rightarrow> rat) \<Rightarrow> 'r list \<Rightarrow> 'k \<Rightarrow> rat" where
  "group_total key col rows k = sum_list (map col (filter (\<lambda>r. key r = k) rows))"

subsection \<open>The two-row example of the specification\<close>

definition example_df :: "sale list" where
  "example_df =
     [\<lparr>Date = to_datetime 19723, Region = ''East'', Product = ''Widget'',
       Sales = 100, Quantity = 2\<rparr>,
      \<lparr>Date = to_datetime 19724, Region = ''West'', Product = ''Gadget'',
       Sales = 50, Quantity = 1\<rparr>]"

section \<open>Properties\<close>

subsection \<open>Filtering\<close>

lemma getitem_mask_map: "getitem_mask df (map P df) = filter P df"
  unfolding getitem_mask_def by (induction df) simp_all

lemma series_and_map: "series_and (map P xs) (map Q xs) = map (\<lambda>x. P x \<and> Q x) xs"
  unfolding series_and_def by (induction xs) simp_all

lemma isin_column: "isin (map f df) vals = map (\<lambda>r. f r \<in> set vals) df"
  unfolding isin_def by (simp add: comp_def)

lemma between_column:
  "between (map f df) l r = map (\<lambda>x. l \<le> f x \<and> f x \<le> r) df"
  unfolding between_def by (simp add: comp_def)

lemma df_filtered_pair:
  "df_filtered df rf pf [d0, d1] =
     Inr (filter (\<lambda>r. (Region r \<in> set rf \<and> Product r \<in> set pf) \<and>
                       to_datetime d0 \<le> Date r \<and> Date r \<le> to_datetime d1) df)"
  unfolding df_filtered_def getitem_def
  by (simp add: isin_column between_column series_and_map getitem_mask_map)

text \<open>
  Claim C1. For a selection made of a region list, a product list and the two dates
  \<open>start\<close> and \<open>finish\<close>, the filtered table is exactly the rows of the dataset, in
  their original order, whose Region is among the selected regions, whose Product is
  among the selected products and whose Date lies between the two dates, both ends
  included.
\<close>

theorem df_filtered_is_selected_subsequence:
  "df_filtered df region_filter product_filter [start, finish] =
     Inr (filter (\<lambda>r. Region r \<in> set region_filter \<and>
                       Product r \<in> set product_filter \<and>
                       to_datetime start \<le> Date r \<and> Date r \<le> to_datetime finish) df)"
  by (simp add: df_filtered_pair)

subsection \<open>KPIs\<close>

lemma foldl_plus_start: "foldl (+) (a::'a::monoid_add) xs = a + sum_list xs"
  by (induction xs arbitrary: a) (simp_all add: add.assoc)

lemma series_sum_sum_list: "series_sum xs = sum_list xs"
  unfolding series_sum_def by (simp add: foldl_plus_start)

lemma sum_list_by_index:
  "sum_list (map f xs) = (\<Sum>i<length xs. (f (xs ! i) :: 'a::comm_monoid_add))"
proof -
  have "sum_list (map f xs) = (\<Sum>i = 0..<length (map f xs). map f xs ! i)"
    by (rule sum_list_sum_nth)
  also have "\<dots> = (\<Sum>i<length xs. f (xs ! i))"
    by (simp add: atLeast0LessThan)
  finally show ?thesis .
qed

text \<open>
  Claim C2. totalSales is the sum of the Sales cells of the filtered rows and
  totalQuantity the sum of their Quantity cells: each row position contributes exactly
  once.
\<close>

theorem totals_count_each_row_once:
  "total_sales fv = (\<Sum>i<length fv. Sales (fv ! i)) \<and>
   total_quantity fv = (\<Sum>i<length fv. Quantity (fv ! i))"
  unfolding total_sales_def total_quantity_def
  by (simp add: series_sum_sum_list sum_list_by_index)

subsection \<open>Sankey data\<close>

lemma first_index_Cons:
  "first_index (x # xs) a = (if x = a then 0 else Suc (first_index xs a))"
  by (simp add: first_index_def)

lemma first_index_less: "a \<in> set xs \<Longrightarrow> first_index xs a < length xs"
  by (induction xs) (auto simp: first_index_Cons)

lemma nth_first_index: "a \<in> set xs \<Longrightarrow> xs ! first_index xs a = a"
  by (induction xs) (auto simp: first_index_Cons)

lemma first_index_nth: "distinct xs \<Longrightarrow> i < length xs \<Longrightarrow> first_index xs (xs ! i) = i"
proof (induction xs arbitrary: i)
  case Nil
  then show ?case by simp
next
  case (Cons x xs)
  then show ?case by (cases i) (auto simp: first_index_Cons)
qed

lemma first_index_append_in:
  "a \<in> set xs \<Longrightarrow> first_index (xs @ ys) a = first_index xs a"
  by (induction xs) (auto simp: first_index_Cons)

lemma first_index_append_fresh:
  "a \<notin> set xs \<Longrightarrow> first_index (xs @ a # ys) a = length xs"
  by (induction xs) (auto simp: first_index_Cons)

lemma unique_scan_invariant:
  assumes "distinct seen" and "set seen = set pre"
    and "sorted_wrt (\<lambda>a b. first_index pre a < first_index pre b) seen"
  shows "distinct (unique_scan seen xs) \<and>
         set (unique_scan seen xs) = set (pre @ xs) \<and>
         sorted_wrt (\<lambda>a b. first_index (pre @ xs) a < first_index (pre @ xs) b)
           (unique_scan seen xs)"
  using assms
proof (induction xs arbitrary: seen pre)
  case Nil
  then show ?case by simp
next
  case (Cons x xs)
  let ?pre = "pre @ [x]"
  show ?case
  proof (cases "x \<in> set seen")
    case True
    have ord: "sorted_wrt (\<lambda>a b. first_index ?pre a < first_index ?pre b) seen"
      using Cons.prems(3)
      by (rule sorted_wrt_mono_rel [rotated]) (simp add: Cons.prems(2) first_index_append_in)
    have "set seen = set ?pre" using True Cons.prems(2) by auto
    from Cons.IH [OF Cons.prems(1) this ord] True show ?thesis by simp
  next
    case False
    have d: "distinct (seen @ [x])" using False Cons.prems(1) by simp
    have s: "set (seen @ [x]) = set ?pre" using Cons.prems(2) by simp
    have old: "sorted_wrt (\<lambda>a b. first_index ?pre a < first_index ?pre b) seen"
      using Cons.prems(3)
      by (rule sorted_wrt_mono_rel [rotated]) (simp add: Cons.prems(2) first_index_append_in)
    have new: "first_index ?pre a < first_index ?pre x" if "a \<in> set seen" for a
    proof -
      have "a \<in> set pre" using that Cons.prems(2) by simp
      moreover have "x \<notin> set pre" using False Cons.prems(2) by simp
      ultimately show ?thesis
        using first_index_less [of a pre]
        by (simp add: first_index_append_in first_index_append_fresh)
    qed
    have ord: "sorted_wrt (\<lambda>a b. first_index ?pre a < first_index ?pre b) (seen @ [x])"
      using old new by (simp add: sorted_wrt_append)
    from Cons.IH [OF d s ord] False show ?thesis by simp
  qed
qed

lemma unique_first_occurrences:
  "distinct (unique col) \<and> set (unique col) = set col \<and>
   sorted_wrt (\<lambda>a b. first_index col a < first_index col b) (unique col)"
  using unique_scan_invariant [of "[]" "[]" col] by (simp add: unique_def)

lemma enumerate_dict_lookup:
  "distinct xs \<Longrightarrow>
   foldl (\<lambda>m (i, k). m(k \<mapsto> g i)) m (enumerate n xs) a =
     (if a \<in> set xs then Some (g (n + first_index xs a)) else m a)"
proof (induction xs arbitrary: m n)
  case Nil
  then show ?case by simp
next
  case (Cons x xs)
  then show ?case by (auto simp: first_index_Cons)
qed

lemma region_idx_lookup:
  "distinct regions \<Longrightarrow>
   region_idx regions a = (if a \<in> set regions then Some (first_index regions a) else None)"
  unfolding region_idx_def by (simp add: enumerate_dict_lookup)

lemma product_idx_lookup:
  "distinct products \<Longrightarrow>
   product_idx regions products a =
     (if a \<in> set products then Some (length regions + first_index products a) else None)"
  unfolding product_idx_def by (simp add: enumerate_dict_lookup)

lemma sankey_loop_total:
  assumes "\<And>r. r \<in> set rows \<Longrightarrow> ridx (Region r) = Some (f r)"
    and "\<And>r. r \<in> set rows \<Longrightarrow> pidx (Product r) = Some (g r)"
  shows "sankey_loop ridx pidx rows (ss, ts, vs) =
           Inr (ss @ map f rows, ts @ map g rows, vs @ map Sales rows)"
  using assms by (induction rows arbitrary: ss ts vs) simp_all

lemma build_flow_closed_form:
  "build_flow fv =
     Inr \<lparr>node_label = unique (map Region fv) @ unique (map Product fv),
          link_source = map (\<lambda>r. first_index (unique (map Region fv)) (Region r)) fv,
          link_target = map (\<lambda>r. length (unique (map Region fv)) +
                                   first_index (unique (map Product fv)) (Product r)) fv,
          link_value = map Sales fv\<rparr>"
proof -
  let ?regions = "unique (map Region fv)" and ?products = "unique (map Product fv)"
  have r: "region_idx ?regions (Region r) = Some (first_index ?regions (Region r))"
    if "r \<in> set fv" for r
    using that unique_first_occurrences [of "map Region fv"]
    by (simp add: region_idx_lookup)
  have p: "product_idx ?regions ?products (Product r) =
             Some (length ?regions + first_index ?products (Product r))"
    if "r \<in> set fv" for r
    using that unique_first_occurrences [of "map Product fv"]
    by (simp add: product_idx_lookup)
  show ?thesis
    unfolding build_flow_def Let_def
    by (simp add: sankey_loop_total [where f = "\<lambda>r. first_index ?regions (Region r)"
          and g = "\<lambda>r. length ?regions + first_index ?products (Product r)", OF r p])
qed


subsection \<open>The guarded average\<close>

lemma example_totals:
  "total_sales example_df = 150 \<and> total_quantity example_df = 3"
  by (simp add: total_sales_def total_quantity_def series_sum_def example_df_def)

lemma empty_totals: "total_sales [] = 0 \<and> total_quantity [] = 0"
  by (simp add: total_sales_def total_quantity_def series_sum_def)

text \<open>
  Claim C3. avgOrderValue is totalSales divided by totalQuantity when totalQuantity is
  positive and 0 when totalQuantity is 0; the guarded division always yields a finite
  number, never NaN (and the script's expression has no raising step).
\<close>

theorem avg_order_value_guarded:
  "(0 < total_quantity fv \<longrightarrow>
      avg_order_value fv = Fin (total_sales fv / of_int (total_quantity fv))) \<and>
   (total_quantity fv = 0 \<longrightarrow> avg_order_value fv = Fin 0) \<and>
   (\<exists>q. avg_order_value fv = Fin q) \<and> avg_order_value fv \<noteq> NaN"
  by (simp add: avg_order_value_def np_true_divide_def)

theorem avg_order_value_guarded_witness:
  "0 < total_quantity example_df \<and> avg_order_value example_df = Fin 50 \<and>
   total_quantity [] = 0 \<and> avg_order_value [] = Fin 0"
  using avg_order_value_guarded [of example_df] avg_order_value_guarded [of "[]"]
  by (simp add: example_totals empty_totals)

subsection \<open>The steps of the flow build\<close>

lemma example_unique:
  "unique (map Region example_df) = [''East'', ''West''] \<and>
   unique (map Product example_df) = [''Widget'', ''Gadget'']"
  by (simp add: unique_def example_df_def)

text \<open>
  Claim C4. The flow graph is built in three steps. The region nodes are the distinct
  Region labels of the filtered rows in order of first occurrence, and the label at
  position \<open>i\<close> gets index \<open>i\<close>; the product nodes are the distinct Product labels in
  order of first occurrence, and the label at position \<open>j\<close> gets index \<open>R + j\<close>; the
  edges are one per filtered row, in row order, each made of the row's region index, its
  product index and its Sales cell, with neither deduplication nor summing.
\<close>

theorem build_flow_steps:
  "distinct (unique (map Region fv)) \<and>
   set (unique (map Region fv)) = set (map Region fv) \<and>
   sorted_wrt (\<lambda>a b. first_index (map Region fv) a < first_index (map Region fv) b)
     (unique (map Region fv)) \<and>
   distinct (unique (map Product fv)) \<and>
   set (unique (map Product fv)) = set (map Product fv) \<and>
   sorted_wrt (\<lambda>a b. first_index (map Product fv) a < first_index (map Product fv) b)
     (unique (map Product fv)) \<and>
   (\<forall>i < length (unique (map Region fv)).
      region_idx (unique (map Region fv)) (unique (map Region fv) ! i) = Some i) \<and>
   (\<forall>j < length (unique (map Product fv)).
      product_idx (unique (map Region fv)) (unique (map Product fv))
        (unique (map Product fv) ! j) = Some (length (unique (map Region fv)) + j)) \<and>
   (\<exists>g. build_flow fv = Inr g \<and>
        node_label g = unique (map Region fv) @ unique (map Product fv) \<and>
        edges g =
          map (\<lambda>r. (first_index (unique (map Region fv)) (Region r),
                      length (unique (map Region fv)) +
                        first_index (unique (map Product fv)) (Product r),
                      Sales r)) fv)"
proof -
  let ?regions = "unique (map Region fv)" and ?products = "unique (map Product fv)"
  note ur = unique_first_occurrences [of "map Region fv"]
  note up = unique_first_occurrences [of "map Product fv"]
  have ri: "\<forall>i < length ?regions. region_idx ?regions (?regions ! i) = Some i"
    using ur [THEN conjunct1] by (simp add: region_idx_lookup first_index_nth)
  have pi: "\<forall>j < length ?products.
      product_idx ?regions ?products (?products ! j) = Some (length ?regions + j)"
    using up [THEN conjunct1] by (simp add: product_idx_lookup first_index_nth)
  have e: "zip (map f fv) (zip (map g fv) (map h fv)) = map (\<lambda>r. (f r, g r, h r)) fv"
    for f :: "sale \<Rightarrow> nat" and g :: "sale \<Rightarrow> nat" and h :: "sale \<Rightarrow> rat"
    by (induction fv) simp_all
  have g: "\<exists>g. build_flow fv = Inr g \<and> node_label g = ?regions @ ?products \<and>
        edges g = map (\<lambda>r. (first_index ?regions (Region r),
                      length ?regions + first_index ?products (Product r), Sales r)) fv"
    by (simp add: build_flow_closed_form edges_def e)
  from ur up ri pi g show ?thesis by blast
qed

theorem build_flow_steps_witness:
  "region_idx [''East'', ''West''] ''East'' = Some 0 \<and>
   region_idx [''East'', ''West''] ''West'' = Some 1 \<and>
   product_idx [''East'', ''West''] [''Widget'', ''Gadget''] ''Widget'' = Some 2 \<and>
   product_idx [''East'', ''West''] [''Widget'', ''Gadget''] ''Gadget'' = Some 3 \<and>
   (\<exists>g. build_flow example_df = Inr g \<and>
        node_label g = [''East'', ''West'', ''Widget'', ''Gadget''] \<and>
        edges g = [(0, 2, 100), (1, 3, 50)])"
proof -
  note s = build_flow_steps [of example_df, unfolded example_unique [THEN conjunct1]
      example_unique [THEN conjunct2]]
  have r: "\<forall>i<2. region_idx [''East'', ''West''] ([''East'', ''West''] ! i) = Some i"
    using s by simp
  have p: "\<forall>j<2. product_idx [''East'', ''West''] [''Widget'', ''Gadget'']
             ([''Widget'', ''Gadget''] ! j) = Some (2 + j)"
    using s by simp
  have g: "\<exists>g. build_flow example_df = Inr g \<and>
        node_label g = [''East'', ''West'', ''Widget'', ''Gadget''] \<and>
        edges g = [(0, 2, 100), (1, 3, 50)]"
    using s by (simp add: example_df_def first_index_def numeral_2_eq_2 numeral_3_eq_3)
  from r [rule_format, of 0] r [rule_format, of 1] p [rule_format, of 0] p [rule_format, of 1] g
  show ?thesis by simp
qed

subsection \<open>Edge count and edge weights\<close>

text \<open>
  Claim C5. The flow graph has exactly as many edges as the filtered table has rows, and
  the edge weights add up to totalSales.
\<close>

theorem flow_edges_match_rows:
  "\<exists>g. build_flow fv = Inr g \<and>
       length (edges g) = length fv \<and>
       length (link_source g) = length fv \<and>
       length (link_target g) = length fv \<and>
       length (link_value g) = length fv \<and>
       series_sum (link_value g) = total_sales fv \<and>
       sum_list (map (\<lambda>e. snd (snd e)) (edges g)) = total_sales fv"
proof -
  have "sum_list (map (\<lambda>e. snd (snd e)) (zip (map f fv) (zip (map g fv) (map Sales fv)))) =
          sum_list (map Sales fv)"
    for f :: "sale \<Rightarrow> nat" and g :: "sale \<Rightarrow> nat"
    by (induction fv) simp_all
  then show ?thesis
    by (simp add: build_flow_closed_form edges_def total_sales_def series_sum_sum_list)
qed

subsection \<open>Valid node indices\<close>

text \<open>
  Claim C10. Every edge carries valid node indices: the source index is below \<open>R\<close>, the
  number of distinct regions, and the node label there is the row's Region; the target
  index lies in \<open>R..R+P-1\<close> and the node label there is the row's Product. The dict
  lookups of a filtered row's Region and Product never miss.
\<close>

theorem flow_indices_valid:
  "\<exists>g. build_flow fv = Inr g \<and>
       length (unique (map Region fv)) = card (Region ` set fv) \<and>
       length (unique (map Product fv)) = card (Product ` set fv) \<and>
       length (node_label g) =
         length (unique (map Region fv)) + length (unique (map Product fv)) \<and>
       (\<forall>k < length fv.
          link_source g ! k < length (unique (map Region fv)) \<and>
          node_label g ! (link_source g ! k) = Region (fv ! k) \<and>
          length (unique (map Region fv)) \<le> link_target g ! k \<and>
          link_target g ! k <
            length (unique (map Region fv)) + length (unique (map Product fv)) \<and>
          node_label g ! (link_target g ! k) = Product (fv ! k)) \<and>
       (\<forall>r \<in> set fv.
          region_idx (unique (map Region fv)) (Region r) \<noteq> None \<and>
          product_idx (unique (map Region fv)) (unique (map Product fv)) (Product r) \<noteq> None)"
proof -
  let ?regions = "unique (map Region fv)" and ?products = "unique (map Product fv)"
  note ur = unique_first_occurrences [of "map Region fv"]
  note up = unique_first_occurrences [of "map Product fv"]
  have cr: "length ?regions = card (Region ` set fv)"
    using ur distinct_card [of ?regions] by simp
  have cp: "length ?products = card (Product ` set fv)"
    using up distinct_card [of ?products] by simp
  have rin: "Region r \<in> set ?regions" if "r \<in> set fv" for r
    using that ur by simp
  have pin: "Product r \<in> set ?products" if "r \<in> set fv" for r
    using that up by simp
  have idx: "first_index ?regions (Region (fv ! k)) < length ?regions \<and>
       (?regions @ ?products) ! first_index ?regions (Region (fv ! k)) = Region (fv ! k) \<and>
       first_index ?products (Product (fv ! k)) < length ?products \<and>
       (?regions @ ?products) ! (length ?regions + first_index ?products (Product (fv ! k)))
         = Product (fv ! k)"
    if "k < length fv" for k
  proof -
    have m: "fv ! k \<in> set fv" using that by simp
    show ?thesis
      using first_index_less [OF rin [OF m]] first_index_less [OF pin [OF m]]
      by (simp add: nth_append nth_first_index [OF rin [OF m]] nth_first_index [OF pin [OF m]])
  qed
  have look: "region_idx ?regions (Region r) \<noteq> None \<and>
       product_idx ?regions ?products (Product r) \<noteq> None" if "r \<in> set fv" for r
    using rin [OF that] pin [OF that] ur [THEN conjunct1] up [THEN conjunct1]
    by (simp add: region_idx_lookup product_idx_lookup)
  show ?thesis
    using cr cp idx look by (simp add: build_flow_closed_form)
qed

theorem flow_indices_valid_witness:
  "\<exists>g. build_flow example_df = Inr g \<and>
       length (node_label g) = 4 \<and>
       link_source g ! 0 < 2 \<and> node_label g ! (link_source g ! 0) = ''East'' \<and>
       2 \<le> link_target g ! 0 \<and> link_target g ! 0 < 4 \<and>
       node_label g ! (link_target g ! 0) = ''Widget'' \<and>
       link_source g ! 1 < 2 \<and> node_label g ! (link_source g ! 1) = ''West'' \<and>
       2 \<le> link_target g ! 1 \<and> link_target g ! 1 < 4 \<and>
       node_label g ! (link_target g ! 1) = ''Gadget'' \<and>
       region_idx [''East'', ''West''] ''East'' \<noteq> None \<and>
       product_idx [''East'', ''West''] [''Widget'', ''Gadget''] ''Gadget'' \<noteq> None"
proof -
  note u = example_unique [THEN conjunct1] example_unique [THEN conjunct2]
  from flow_indices_valid [of example_df, unfolded u]
  obtain g where g: "build_flow example_df = Inr g"
    and n: "length (node_label g) = length [''East'', ''West''] + length [''Widget'', ''Gadget'']"
    and k: "\<forall>k < length example_df.
          link_source g ! k < length [''East'', ''West''] \<and>
          node_label g ! (link_source g ! k) = Region (example_df ! k) \<and>
          length [''East'', ''West''] \<le> link_target g ! k \<and>
          link_target g ! k < length [''East'', ''West''] + length [''Widget'', ''Gadget''] \<and>
          node_label g ! (link_target g ! k) = Product (example_df ! k)"
    and l: "\<forall>r \<in> set example_df.
          region_idx [''East'', ''West''] (Region r) \<noteq> None \<and>
          product_idx [''East'', ''West''] [''Widget'', ''Gadget''] (Product r) \<noteq> None"
    by blast
  have len: "length example_df = 2" by (simp add: example_df_def)
  have k0: "(0::nat) < length example_df" and k1: "(1::nat) < length example_df"
    by (simp_all add: len)
  from k [rule_format, OF k0] k [rule_format, OF k1] l n g
  show ?thesis by (simp add: example_df_def)
qed

subsection \<open>Empty selections and empty tables\<close>

lemma empty_outputs:
  "avg_order_value [] = Fin 0 \<and> word_freq [] = Map.empty \<and>
   sales_over_time [] = [] \<and> sales_by_region [] = [] \<and>
   build_flow [] = Inr \<lparr>node_label = [], link_source = [], link_target = [], link_value = []\<rparr>"
  by (simp add: avg_order_value_def empty_totals word_freq_def to_dict_def groupby_sum_def
      group_sums_def sales_over_time_def sales_by_region_def build_flow_def unique_def
      region_idx_def product_idx_def)

text \<open>
  Claim C7. With an empty region list or an empty product list the filtered table is
  empty; and on an empty filtered table totalSales, totalQuantity and avgOrderValue are
  0, the product-frequency dict is empty, and the flow graph has no node and no edge.
\<close>

theorem empty_selection_degrades:
  "(region_filter = [] \<or> product_filter = [] \<longrightarrow>
      df_filtered df region_filter product_filter [start, finish] = Inr []) \<and>
   total_sales [] = 0 \<and> total_quantity [] = 0 \<and> avg_order_value [] = Fin 0 \<and>
   word_freq [] = Map.empty \<and>
   (\<exists>g. build_flow [] = Inr g \<and> node_label g = [] \<and> edges g = [])"
  by (auto simp: df_filtered_pair empty_totals empty_outputs edges_def)

theorem empty_selection_degrades_witness:
  "df_filtered example_df [] [''Widget'', ''Gadget''] [19723, 19724] = Inr [] \<and>
   df_filtered example_df [''East'', ''West''] [] [19723, 19724] = Inr [] \<and>
   total_sales [] = 0 \<and> total_quantity [] = 0 \<and> avg_order_value [] = Fin 0 \<and>
   word_freq [] = Map.empty \<and>
   (\<exists>g. build_flow [] = Inr g \<and> node_label g = [] \<and> edges g = [])"
  using empty_selection_degrades [of "[]" "[''Widget'', ''Gadget'']" example_df 19723 19724]
    empty_selection_degrades [of "[''East'', ''West'']" "[]" example_df 19723 19724]
  by simp

subsection \<open>Non-empty selections\<close>

text \<open>
  Claim C8, as stated, fails: both selected sets are non-empty and the date interval
  holds the Date of a row, yet no row has a selected region together with a selected
  product, and the filtered table is empty.
\<close>

theorem nonempty_selection_counterexample:
  "[''East''] \<noteq> [] \<and> [''Gadget''] \<noteq> [] \<and>
   example_df ! 0 \<in> set example_df \<and>
   to_datetime 19723 \<le> Date (example_df ! 0) \<and>
   Date (example_df ! 0) \<le> to_datetime 19724 \<and>
   df_filtered example_df [''East''] [''Gadget''] [19723, 19724] = Inr []"
  by (simp add: df_filtered_pair example_df_def to_datetime_def)

text \<open>
  Claim C8, amended. Every row of the filtered table is a row of the dataset that
  satisfies the three membership tests, and the filtered table is non-empty exactly when
  some row of the dataset satisfies the three tests together.
\<close>

theorem nonempty_selection_amended:
  "\<exists>fv. df_filtered df region_filter product_filter [start, finish] = Inr fv \<and>
     (\<forall>r \<in> set fv. r \<in> set df \<and> Region r \<in> set region_filter \<and>
        Product r \<in> set product_filter \<and>
        to_datetime start \<le> Date r \<and> Date r \<le> to_datetime finish) \<and>
     (fv \<noteq> [] \<longleftrightarrow>
        (\<exists>r \<in> set df. Region r \<in> set region_filter \<and> Product r \<in> set product_filter \<and>
           to_datetime start \<le> Date r \<and> Date r \<le> to_datetime finish))"
  by (auto simp: df_filtered_pair filter_empty_conv)

theorem nonempty_selection_amended_witness:
  "\<exists>fv. df_filtered example_df [''East''] [''Widget'', ''Gadget''] [19723, 19724] = Inr fv \<and>
     fv = [example_df ! 0] \<and> fv \<noteq> [] \<and>
     Region (example_df ! 0) \<in> set [''East''] \<and>
     Product (example_df ! 0) \<in> set [''Widget'', ''Gadget''] \<and>
     to_datetime 19723 \<le> Date (example_df ! 0) \<and>
     Date (example_df ! 0) \<le> to_datetime 19724"
proof -
  from nonempty_selection_amended
    [of example_df "[''East'']" "[''Widget'', ''Gadget'']" 19723 19724]
  obtain fv where a: "df_filtered example_df [''East''] [''Widget'', ''Gadget'']
        [19723, 19724] = Inr fv"
    and b: "\<forall>r \<in> set fv. r \<in> set example_df \<and> Region r \<in> set [''East''] \<and>
        Product r \<in> set [''Widget'', ''Gadget''] \<and>
        to_datetime 19723 \<le> Date r \<and> Date r \<le> to_datetime 19724"
    by blast
  have "df_filtered example_df [''East''] [''Widget'', ''Gadget''] [19723, 19724] =
          Inr [example_df ! 0]"
    by (simp add: df_filtered_pair example_df_def to_datetime_def)
  with a have fv: "fv = [example_df ! 0]" by simp
  from b have "Region (example_df ! 0) \<in> set [''East''] \<and>
        Product (example_df ! 0) \<in> set [''Widget'', ''Gadget''] \<and>
        to_datetime 19723 \<le> Date (example_df ! 0) \<and>
        Date (example_df ! 0) \<le> to_datetime 19724"
    unfolding fv by simp
  with a fv show ?thesis by simp
qed

subsection \<open>The script on every value of the date picker\<close>

lemma df_filtered_short_selection:
  "df_filtered df rf pf [] = Inl IndexError \<and> df_filtered df rf pf [d] = Inl IndexError"
  by (simp add: df_filtered_def getitem_def)

lemma app_short_selection:
  "app df rf pf [] = Inl IndexError \<and> app df rf pf [d] = Inl IndexError"
  by (simp add: app_def df_filtered_short_selection)

lemma app_total_on_two_dates: "\<exists>vm. app df rf pf (d0 # d1 # ds) = Inr vm"
proof -
  have "\<exists>fv. df_filtered df rf pf (d0 # d1 # ds) = Inr fv"
    by (simp add: df_filtered_def getitem_def)
  then show ?thesis
    by (auto simp: app_def build_flow_closed_form)
qed

text \<open>
  Claim C9 fails on the code. The date picker is created with a two-date default, so it
  is a range picker, and while the user has picked only the first day of a range it
  delivers a one-element tuple. Line 43 then evaluates \<open>date_filter[1]\<close>, which raises
  IndexError, and the script stops before any aggregate is computed.
\<close>

theorem app_raises_on_one_date:
  "app example_df [''East'', ''West''] [''Widget'', ''Gadget''] [19723] = Inl IndexError"
  by (simp add: app_short_selection)

subsection \<open>Grouped sums\<close>

lemma group_add_keys:
  "map fst (group_add k v gs) =
     (if k \<in> fst ` set gs then map fst gs else map fst gs @ [k])"
  by (induction k v gs rule: group_add.induct) force+

lemma group_add_distinct:
  "distinct (map fst gs) \<Longrightarrow> distinct (map fst (group_add k v gs))"
  by (simp add: group_add_keys)

lemma group_add_lookup:
  "map_of (group_add k v gs) =
     (map_of gs)(k \<mapsto> (case map_of gs k of None \<Rightarrow> v | Some s \<Rightarrow> s + v))"
  by (induction gs) (auto simp: fun_eq_iff)

lemma group_add_sum:
  "sum_list (map snd (group_add k v gs)) = sum_list (map snd gs) + v"
  by (induction gs) auto

lemma group_fold_distinct:
  "distinct (map fst gs) \<Longrightarrow>
   distinct (map fst (foldl (\<lambda>gs r. group_add (key r) (col r) gs) gs rows))"
  by (induction rows arbitrary: gs) (simp_all add: group_add_distinct)

lemma group_add_key_set:
  "fst ` set (group_add k v gs) = insert k (fst ` set gs)"
  by (induction k v gs rule: group_add.induct) force+

lemma group_fold_keys:
  "fst ` set (foldl (\<lambda>gs r. group_add (key r) (col r) gs) gs rows) =
     fst ` set gs \<union> key ` set rows"
  by (induction rows arbitrary: gs) (simp_all add: group_add_key_set)

lemma group_fold_sum:
  "sum_list (map snd (foldl (\<lambda>gs r. group_add (key r) (col r) gs) gs rows)) =
     sum_list (map snd gs) + sum_list (map col rows)"
  by (induction rows arbitrary: gs) (simp_all add: group_add_sum add.assoc)

lemma group_fold_lookup:
  "map_of (foldl (\<lambda>gs r. group_add (key r) (col r) gs) gs rows) k =
     (if k \<in> fst ` set gs \<union> key ` set rows
      then Some ((case map_of gs k of None \<Rightarrow> 0 | Some s \<Rightarrow> s) + group_total key col rows k)
      else None)"
proof (induction rows arbitrary: gs)
  case Nil
  have "k \<in> fst ` set gs \<longleftrightarrow> map_of gs k \<noteq> None"
    by (simp add: map_of_eq_None_iff)
  then show ?case
    by (cases "map_of gs k") (simp_all add: group_total_def)
next
  case (Cons r rows)
  let ?gs = "group_add (key r) (col r) gs"
  have keys: "fst ` set ?gs = insert (key r) (fst ` set gs)"
    by (rule group_add_key_set)
  show ?case
  proof (cases "key r = k")
    case True
    then show ?thesis
      using Cons.IH [of ?gs] keys
      by (cases "map_of gs k") (simp_all add: group_add_lookup group_total_def add.assoc)
  next
    case False
    then show ?thesis
      using Cons.IH [of ?gs] keys
      by (simp add: group_add_lookup group_total_def)
  qed
qed

lemma group_sums_entry:
  assumes "(k, s) \<in> set (group_sums key col rows)"
  shows "s = group_total key col rows k"
proof -
  have "distinct (map fst (group_sums key col rows))"
    unfolding group_sums_def by (rule group_fold_distinct) simp
  with assms have "map_of (group_sums key col rows) k = Some s" by simp
  then show ?thesis
    unfolding group_sums_def by (simp add: group_fold_lookup split: if_splits)
qed

lemma sum_list_insort_key:
  "sum_list (map g (insort_key f x xs)) = g x + sum_list (map g xs)"
  for g :: "'a \<Rightarrow> rat"
  by (induction xs) simp_all

lemma sum_list_sort_key: "sum_list (map g (sort_key f xs)) = sum_list (map g xs)"
  for g :: "'a \<Rightarrow> rat"
  by (induction xs) (simp_all add: sum_list_insort_key)

lemma distinct_keys_sort_key:
  "distinct (map f (sort_key f xs)) = distinct (map f xs)"
  by (induction xs) (simp_all add: distinct_insort_key)

lemma entries_by_key:
  "(\<And>k s. (k, s) \<in> set ts \<Longrightarrow> s = f k) \<Longrightarrow> ts = map (\<lambda>k. (k, f k)) (map fst ts)"
  by (induction ts) auto

lemma groupby_sum_keys:
  "sorted (map fst (groupby_sum key col rows)) \<and>
   distinct (map fst (groupby_sum key col rows)) \<and>
   set (map fst (groupby_sum key col rows)) = key ` set rows"
proof -
  have d: "distinct (map fst (group_sums key col rows))"
    unfolding group_sums_def by (rule group_fold_distinct) simp
  have s: "fst ` set (group_sums key col rows) = key ` set rows"
    unfolding group_sums_def by (simp add: group_fold_keys)
  show ?thesis
    unfolding groupby_sum_def using d s
    by (simp add: sorted_sort_key distinct_keys_sort_key)
qed

lemma groupby_sum_closed_form:
  "groupby_sum key col rows =
     map (\<lambda>k. (k, group_total key col rows k)) (sorted_list_of_set (key ` set rows))"
proof -
  let ?ts = "groupby_sum key col rows"
  note k = groupby_sum_keys [of key col rows]
  have keys: "map fst ?ts = sorted_list_of_set (key ` set rows)"
    using k by (intro sorted_distinct_set_unique) simp_all
  have "?ts = map (\<lambda>k. (k, group_total key col rows k)) (map fst ?ts)"
    by (rule entries_by_key) (simp add: groupby_sum_def group_sums_entry)
  with keys show ?thesis by simp
qed

lemma groupby_sum_total:
  "sum_list (map snd (groupby_sum key col rows)) = sum_list (map col rows)"
  unfolding groupby_sum_def group_sums_def
  by (simp add: sum_list_sort_key group_fold_sum)


lemma example_time_series:
  "sales_over_time example_df = [(to_datetime 19723, 100), (to_datetime 19724, 50)]"
  by (simp add: sales_over_time_def groupby_sum_def group_sums_def example_df_def
      to_datetime_def)

text \<open>
  Claim C6. The time series has exactly one entry per distinct Date of the filtered
  rows, carrying the sum of the Sales cells of the rows with that Date; its entries are
  ordered by Date, ascending; and its sums add up to totalSales.
\<close>

theorem time_series_partitions_sales:
  "sales_over_time fv =
     map (\<lambda>d. (d, sum_list (map Sales (filter (\<lambda>r. Date r = d) fv))))
       (sorted_list_of_set (Date ` set fv)) \<and>
   distinct (map fst (sales_over_time fv)) \<and>
   set (map fst (sales_over_time fv)) = Date ` set fv \<and>
   sorted (map fst (sales_over_time fv)) \<and>
   series_sum (map snd (sales_over_time fv)) = total_sales fv"
proof -
  have "sales_over_time fv =
     map (\<lambda>d. (d, sum_list (map Sales (filter (\<lambda>r. Date r = d) fv))))
       (sorted_list_of_set (Date ` set fv))"
    unfolding sales_over_time_def
    using groupby_sum_closed_form [of Date Sales fv] by (simp add: group_total_def)
  moreover have "series_sum (map snd (sales_over_time fv)) = total_sales fv"
    unfolding sales_over_time_def total_sales_def
    by (simp only: series_sum_sum_list groupby_sum_total)
  ultimately show ?thesis
    using groupby_sum_keys [of Date Sales fv]
    unfolding sales_over_time_def by blast
qed

theorem time_series_partitions_sales_witness:
  "sales_over_time example_df = [(to_datetime 19723, 100), (to_datetime 19724, 50)] \<and>
   distinct (map fst (sales_over_time example_df)) \<and>
   sorted (map fst (sales_over_time example_df)) \<and>
   series_sum (map snd (sales_over_time example_df)) = 150"
proof -
  from time_series_partitions_sales [of example_df]
  have "distinct (map fst (sales_over_time example_df)) \<and>
        sorted (map fst (sales_over_time example_df)) \<and>
        series_sum (map snd (sales_over_time example_df)) = total_sales example_df"
    by blast
  with example_time_series example_totals show ?thesis by simp
qed

end
